theory Spec2Isabelle
  imports Complex_Main
begin

section \<open>A 1D finite-volume Euler solver with HLL fluxes\<close>

text \<open>
  The sources are \<^verbatim>\<open>cpp/grid.h\<close>, \<^verbatim>\<open>cpp/grid.cpp\<close>, \<^verbatim>\<open>cpp/solver.h\<close> and
  \<^verbatim>\<open>cpp/solver.cpp\<close>. A C++ \<^verbatim>\<open>double\<close> is modelled by a \<^typ>\<open>real\<close>: every
  statement below is about exact arithmetic, and says nothing about rounding, infinities
  or NaN. The literal \<^verbatim>\<open>1e-14\<close> is \<open>1 / 10 ^ 14\<close> and \<^verbatim>\<open>1e-9\<close> is \<open>1 / 10 ^ 9\<close>.
  A C++ \<^verbatim>\<open>int\<close> is modelled by an \<^typ>\<open>int\<close>; the only integers are cell counts and
  cell indices.
\<close>

subsection \<open>Data model (grid.h, solver.h)\<close>

text \<open>\<^verbatim>\<open>struct Cell { double rho; double mom; double energy; }\<close>\<close>

record Cell =
  rho :: real
  mom :: real
  energy :: real

text \<open>\<^verbatim>\<open>struct Primitive { double rho; double u; double p; }\<close>; the field names carry
  a suffix because \<open>rho\<close> is already a field of \<open>Cell\<close>.\<close>

record Primitive =
  rho_P :: real
  u_P :: real
  p_P :: real

text \<open>\<^verbatim>\<open>struct Flux { double rho; double mom; double eng; }\<close>\<close>

record Flux =
  rho_F :: real
  mom_F :: real
  eng_F :: real

text \<open>\<^verbatim>\<open>constexpr double GAMMA = 1.4\<close>\<close>

definition GAMMA :: real where
  "GAMMA = 14 / 10"

text \<open>\<^verbatim>\<open>std::max(a, b)\<close> is \<^verbatim>\<open>(a < b) ? b : a\<close> and \<^verbatim>\<open>std::min(a, b)\<close> is
  \<^verbatim>\<open>(b < a) ? b : a\<close>.\<close>

definition std_max :: "real \<Rightarrow> real \<Rightarrow> real" where
  "std_max a b = (if a < b then b else a)"

definition std_min :: "real \<Rightarrow> real \<Rightarrow> real" where
  "std_min a b = (if b < a then b else a)"

subsection \<open>Physics conversions (solver.cpp)\<close>

definition soundSpeed :: "Primitive \<Rightarrow> real \<Rightarrow> real" where
  "soundSpeed q gamma =
     (let press = std_max (p_P q) (1 / 10 ^ 14);
          dens = std_max (rho_P q) (1 / 10 ^ 14)
      in sqrt (gamma * press / dens))"

definition conservedToPrimitive :: "Cell \<Rightarrow> real \<Rightarrow> Primitive" where
  "conservedToPrimitive c gamma =
     (let r = std_max (rho c) (1 / 10 ^ 14);
          v = mom c / r;
          kinetic = 0.5 * r * v * v;
          internal_eng = energy c - kinetic;
          pr = (gamma - 1) * internal_eng
      in \<lparr>rho_P = r, u_P = v, p_P = std_max pr (1 / 10 ^ 14)\<rparr>)"

definition primitiveToConserved :: "Primitive \<Rightarrow> real \<Rightarrow> Cell" where
  "primitiveToConserved q gamma =
     (let internal = p_P q / (gamma - 1);
          kinetic = 0.5 * rho_P q * u_P q * u_P q
      in \<lparr>rho = rho_P q, mom = rho_P q * u_P q, energy = internal + kinetic\<rparr>)"

subsection \<open>The helpers of grid.cpp, fixed to \<open>GAMMA\<close>\<close>

definition conservedToPrimitive_grid :: "Cell \<Rightarrow> Primitive" where
  "conservedToPrimitive_grid c =
     (let r0 = rho c;
          r = (if r0 \<le> 1 / 10 ^ 14 then 1 / 10 ^ 14 else r0);
          v = mom c / r;
          kinetic = 0.5 * r * v * v;
          internal_energy = energy c - kinetic;
          pr = (GAMMA - 1) * internal_energy
      in \<lparr>rho_P = r, u_P = v, p_P = (if pr \<le> 1 / 10 ^ 14 then 1 / 10 ^ 14 else pr)\<rparr>)"

definition primitiveToConserved_grid :: "Primitive \<Rightarrow> Cell" where
  "primitiveToConserved_grid q =
     (let internal = p_P q / (GAMMA - 1);
          kinetic = 0.5 * rho_P q * u_P q * u_P q
      in \<lparr>rho = rho_P q, mom = rho_P q * u_P q, energy = internal + kinetic\<rparr>)"

subsection \<open>The HLL flux (solver.cpp)\<close>

definition computeHLLFlux :: "Primitive \<Rightarrow> Primitive \<Rightarrow> real \<Rightarrow> Flux" where
  "computeHLLFlux L R gamma =
     (let aL = soundSpeed L gamma;
          aR = soundSpeed R gamma;
          SL = std_min (u_P L - aL) (u_P R - aR);
          SR = std_max (u_P L + aL) (u_P R + aR);
          UL = primitiveToConserved L gamma;
          FL = \<lparr>rho_F = mom UL,
                mom_F = (mom UL * u_P L) + p_P L,
                eng_F = u_P L * (energy UL + p_P L)\<rparr>;
          UR = primitiveToConserved R gamma;
          FR = \<lparr>rho_F = mom UR,
                mom_F = (mom UR * u_P R) + p_P R,
                eng_F = u_P R * (energy UR + p_P R)\<rparr>
      in if SL \<ge> 0 then FL
         else if SR \<le> 0 then FR
         else (let denom = 1 / (SR - SL)
               in \<lparr>rho_F = (SR * rho_F FL - SL * rho_F FR + SL * SR * (rho UR - rho UL)) * denom,
                   mom_F = (SR * mom_F FL - SL * mom_F FR + SL * SR * (mom UR - mom UL)) * denom,
                   eng_F = (SR * eng_F FL - SL * eng_F FR
                              + SL * SR * (energy UR - energy UL)) * denom\<rparr>))"

text \<open>The wave-speed estimates of \<open>computeHLLFlux\<close>, named so that statements can
  speak about them.\<close>

definition waveSL :: "Primitive \<Rightarrow> Primitive \<Rightarrow> real \<Rightarrow> real" where
  "waveSL L R gamma =
     std_min (u_P L - soundSpeed L gamma) (u_P R - soundSpeed R gamma)"

definition waveSR :: "Primitive \<Rightarrow> Primitive \<Rightarrow> real \<Rightarrow> real" where
  "waveSR L R gamma =
     std_max (u_P L + soundSpeed L gamma) (u_P R + soundSpeed R gamma)"

text \<open>The specification's physical flux \<open>F(\<rho>, u, p) = (\<rho>u, \<rho>u\<^sup>2 + p, u(E + p))\<close>, with
  \<open>E\<close> the total energy of the conserved state of \<open>(\<rho>, u, p)\<close>.\<close>

definition physicalFlux :: "Primitive \<Rightarrow> real \<Rightarrow> Flux" where
  "physicalFlux q gamma =
     \<lparr>rho_F = rho_P q * u_P q,
      mom_F = rho_P q * (u_P q)\<^sup>2 + p_P q,
      eng_F = u_P q * (energy (primitiveToConserved q gamma) + p_P q)\<rparr>"

text \<open>The specification's three-branch HLL formula, in its own words: Davis estimates
  with \<open>min\<close> and \<open>max\<close>, and a division by \<open>SR - SL\<close>.\<close>

definition hll_spec :: "Primitive \<Rightarrow> Primitive \<Rightarrow> real \<Rightarrow> Flux" where
  "hll_spec L R gamma =
     (let SL = min (u_P L - soundSpeed L gamma) (u_P R - soundSpeed R gamma);
          SR = max (u_P L + soundSpeed L gamma) (u_P R + soundSpeed R gamma);
          FL = physicalFlux L gamma;
          FR = physicalFlux R gamma;
          UL = primitiveToConserved L gamma;
          UR = primitiveToConserved R gamma
      in if SL \<ge> 0 then FL
         else if SR \<le> 0 then FR
         else \<lparr>rho_F = (SR * rho_F FL - SL * rho_F FR + SL * SR * (rho UR - rho UL)) / (SR - SL),
               mom_F = (SR * mom_F FL - SL * mom_F FR + SL * SR * (mom UR - mom UL)) / (SR - SL),
               eng_F = (SR * eng_F FL - SL * eng_F FR
                          + SL * SR * (energy UR - energy UL)) / (SR - SL)\<rparr>)"

subsection \<open>The grid (grid.h, grid.cpp)\<close>

text \<open>\<^verbatim>\<open>class Grid\<close> with its private members \<^verbatim>\<open>nx_\<close>, \<^verbatim>\<open>x0_\<close>, \<^verbatim>\<open>x1_\<close>, \<^verbatim>\<open>dx_\<close> and
  \<^verbatim>\<open>cells_\<close>. The accessors \<^verbatim>\<open>size()\<close>, \<^verbatim>\<open>dx()\<close>, \<^verbatim>\<open>getX0()\<close> and \<^verbatim>\<open>cells()\<close> are the
  field selectors \<open>nx_G\<close>, \<open>dx_G\<close>, \<open>x0_G\<close> and \<open>cells_G\<close>.\<close>

record Grid =
  nx_G :: int
  x0_G :: real
  x1_G :: real
  dx_G :: real
  cells_G :: "Cell list"

text \<open>The value-initialised cell \<^verbatim>\<open>{0.0, 0.0, 0.0}\<close>.\<close>

definition zeroCell :: Cell where
  "zeroCell = \<lparr>rho = 0, mom = 0, energy = 0\<rparr>"

text \<open>The constructor \<^verbatim>\<open>Grid::Grid(int nx, double x0, double x1)\<close>: a non-positive cell
  count becomes 100, and \<^verbatim>\<open>cells_.resize(nx_)\<close> fills the vector with zero cells.\<close>

definition Grid_new :: "int \<Rightarrow> real \<Rightarrow> real \<Rightarrow> Grid" where
  "Grid_new n a b =
     (let n' = (if n \<le> 0 then 100 else n)
      in \<lparr>nx_G = n', x0_G = a, x1_G = b, dx_G = (b - a) / of_int n',
          cells_G = replicate (nat n') zeroCell\<rparr>)"

definition initialize :: "Grid \<Rightarrow> Primitive \<Rightarrow> Primitive \<Rightarrow> real \<Rightarrow> Grid" where
  "initialize g left right interface_pos =
     (let cLeft = primitiveToConserved_grid left;
          cRight = primitiveToConserved_grid right
      in fold (\<lambda>i h.
                 let x = x0_G h + (of_nat i + 0.5) * dx_G h
                 in h\<lparr>cells_G := (cells_G h)[i := (if x < interface_pos then cLeft else cRight)]\<rparr>)
           [0..<nat (nx_G g)] g)"

definition setCell :: "Grid \<Rightarrow> int \<Rightarrow> Cell \<Rightarrow> Grid" where
  "setCell g i c =
     (if i \<ge> 0 \<and> i < nx_G g then g\<lparr>cells_G := (cells_G g)[nat i := c]\<rparr> else g)"

definition getCell :: "Grid \<Rightarrow> int \<Rightarrow> Cell" where
  "getCell g i = (if i \<ge> 0 \<and> i < nx_G g then cells_G g ! nat i else zeroCell)"

definition applyBoundaryConditions :: "Grid \<Rightarrow> string \<Rightarrow> Grid" where
  "applyBoundaryConditions g bc_type =
     (if nx_G g < 2 then g
      else if bc_type = ''outflow'' \<or> bc_type = ''transmissive'' then g
      else if bc_type = ''reflective'' then
        (let cs = cells_G g;
             cs1 = cs[0 := (cs ! 0)\<lparr>mom := - mom (cs ! 0)\<rparr>];
             k = nat (nx_G g - 1);
             cs2 = cs1[k := (cs1 ! k)\<lparr>mom := - mom (cs1 ! k)\<rparr>]
         in g\<lparr>cells_G := cs2\<rparr>)
      else g)"

text \<open>The class invariant that the constructor establishes and every member function
  keeps: the cell count is positive and is the length of the cell vector.\<close>

definition grid_inv :: "Grid \<Rightarrow> bool" where
  "grid_inv g = (0 < nx_G g \<and> length (cells_G g) = nat (nx_G g))"

subsection \<open>Time step and one update (solver.cpp)\<close>

text \<open>\<^verbatim>\<open>Solver::computeCFL\<close>: the loop keeps the running maximum in \<^verbatim>\<open>max_signal\<close>,
  which starts at \<open>0\<close>.\<close>

definition computeCFL :: "Grid \<Rightarrow> real \<Rightarrow> real \<Rightarrow> real" where
  "computeCFL g cfl gamma =
     (let max_signal =
            fold (\<lambda>i ms.
                    let q = conservedToPrimitive (cells_G g ! i) gamma;
                        a = soundSpeed q gamma;
                        signal = \<bar>u_P q\<bar> + a
                    in if signal > ms then signal else ms)
              [0..<nat (nx_G g)] 0;
          max_signal' = (if max_signal < 1 / 10 ^ 9 then 1 / 10 ^ 9 else max_signal)
      in cfl * dx_G g / max_signal')"

text \<open>The body of the flux loop of \<^verbatim>\<open>Solver::step\<close> at interface \<open>i\<close>, for a grid of \<open>n\<close>
  cells \<open>cs\<close>: the left and right states, then the HLL flux.\<close>

definition interfaceFlux :: "Cell list \<Rightarrow> nat \<Rightarrow> real \<Rightarrow> string \<Rightarrow> nat \<Rightarrow> Flux" where
  "interfaceFlux cs n gamma bc i =
     (if i = 0 then
        (let R = conservedToPrimitive (cs ! 0) gamma;
             L = (if bc = ''reflective'' then R\<lparr>u_P := - u_P R\<rparr> else R)
         in computeHLLFlux L R gamma)
      else if i = n then
        (let L = conservedToPrimitive (cs ! (n - 1)) gamma;
             R = (if bc = ''reflective'' then L\<lparr>u_P := - u_P L\<rparr> else L)
         in computeHLLFlux L R gamma)
      else
        (let L = conservedToPrimitive (cs ! (i - 1)) gamma;
             R = conservedToPrimitive (cs ! i) gamma
         in computeHLLFlux L R gamma))"

text \<open>The vector \<^verbatim>\<open>fluxes\<close> of \<open>nx + 1\<close> interface fluxes, filled for \<open>i = 0, \<dots>, nx\<close>.\<close>

definition computeFluxes :: "Grid \<Rightarrow> real \<Rightarrow> string \<Rightarrow> Flux list" where
  "computeFluxes g gamma bc =
     map (interfaceFlux (cells_G g) (nat (nx_G g)) gamma bc) [0..<nat (nx_G g) + 1]"

text \<open>The body of the update loop: the cell is read from the grid as it is now (the
  C++ \<^verbatim>\<open>cells\<close> is a reference to the live vector) and written back with \<open>setCell\<close>.\<close>

definition updateCell :: "Flux list \<Rightarrow> real \<Rightarrow> real \<Rightarrow> nat \<Rightarrow> Grid \<Rightarrow> Grid" where
  "updateCell fluxes dt dx0 i g =
     (let c = cells_G g ! i;
          ratio = dt / dx0;
          c' = \<lparr>rho = rho c - ratio * (rho_F (fluxes ! (i + 1)) - rho_F (fluxes ! i)),
                mom = mom c - ratio * (mom_F (fluxes ! (i + 1)) - mom_F (fluxes ! i)),
                energy = energy c - ratio * (eng_F (fluxes ! (i + 1)) - eng_F (fluxes ! i))\<rparr>
      in setCell g (int i) c')"

text \<open>\<^verbatim>\<open>Solver::step\<close>; the reference parameter \<^verbatim>\<open>time\<close> is returned with the grid.\<close>

definition step :: "Grid \<Rightarrow> real \<Rightarrow> real \<Rightarrow> real \<Rightarrow> string \<Rightarrow> Grid \<times> real" where
  "step g time dt gamma bc =
     (let n = nat (nx_G g);
          dx0 = dx_G g;
          g1 = applyBoundaryConditions g bc;
          fluxes = computeFluxes g1 gamma bc;
          g2 = fold (updateCell fluxes dt dx0) [0..<n] g1
      in (g2, time + dt))"

subsection \<open>The driver (utils.h, solver.cpp)\<close>

text \<open>\<^verbatim>\<open>struct Params\<close>; the field names carry a suffix.\<close>

record Params =
  nx_par :: int
  x0_par :: real
  x1_par :: real
  t_final_par :: real
  cfl_par :: real
  gamma_par :: real
  output_dir_par :: string
  output_dt_par :: real
  left_rho_par :: real
  left_u_par :: real
  left_p_par :: real
  right_rho_par :: real
  right_u_par :: real
  right_p_par :: real
  interface_position_par :: real
  bc_type_par :: string

text \<open>The defaults that \<^verbatim>\<open>Utils::parseParameterFile\<close> starts from.\<close>

definition defaultParams :: Params where
  "defaultParams =
     \<lparr>nx_par = 100, x0_par = 0, x1_par = 1, t_final_par = 2 / 10, cfl_par = 8 / 10,
      gamma_par = 14 / 10, output_dir_par = ''data/outputs'', output_dt_par = 1 / 100,
      left_rho_par = 1, left_u_par = 0, left_p_par = 1,
      right_rho_par = 125 / 1000, right_u_par = 0, right_p_par = 1 / 10,
      interface_position_par = 5 / 10, bc_type_par = ''outflow''\<rparr>"

text \<open>The local variables of \<^verbatim>\<open>Solver::runSimulation\<close> and the grid. The files written by
  \<^verbatim>\<open>Utils::writeSnapshotCSV\<close> are kept as a log of (snapshot index, grid, time), latest
  first; the messages on the console are left out.\<close>

record Sim =
  time_S :: real
  step_count_S :: int
  snapshot_idx_S :: int
  time_since_last_output_S :: real
  grid_S :: Grid
  written_S :: "(int \<times> Grid \<times> real) list"

text \<open>The state when the \<^verbatim>\<open>while\<close> loop is first reached: the initial snapshot has index
  0 and the index has been incremented.\<close>

definition initSim :: "Grid \<Rightarrow> Sim" where
  "initSim g =
     \<lparr>time_S = 0, step_count_S = 0, snapshot_idx_S = 1, time_since_last_output_S = 0,
      grid_S = g, written_S = [(0, g, 0)]\<rparr>"

text \<open>One pass through the body of the \<^verbatim>\<open>while\<close> loop.\<close>

definition loopBody :: "Params \<Rightarrow> Sim \<Rightarrow> Sim" where
  "loopBody p s =
     (let dt0 = computeCFL (grid_S s) (cfl_par p) (gamma_par p);
          dt = (if time_S s + dt0 > t_final_par p then t_final_par p - time_S s else dt0);
          (g', t') = step (grid_S s) (time_S s) dt (gamma_par p) (bc_type_par p);
          s1 = s\<lparr>time_S := t', grid_S := g', step_count_S := step_count_S s + 1,
                 time_since_last_output_S := time_since_last_output_S s + dt\<rparr>
      in if time_since_last_output_S s1 \<ge> output_dt_par p
         then s1\<lparr>written_S := (snapshot_idx_S s1, g', t') # written_S s1,
                 snapshot_idx_S := snapshot_idx_S s1 + 1,
                 time_since_last_output_S := 0\<rparr>
         else s1)"

text \<open>The \<^verbatim>\<open>while (time < p.t_final)\<close> loop, with fuel: \<open>None\<close> when the fuel runs out
  before the loop condition turns false.\<close>

fun runLoop :: "nat \<Rightarrow> Params \<Rightarrow> Sim \<Rightarrow> Sim option" where
  "runLoop fuel p s =
     (if time_S s < t_final_par p
      then (case fuel of 0 \<Rightarrow> None | Suc k \<Rightarrow> runLoop k p (loopBody p s))
      else Some s)"

declare runLoop.simps [simp del]

text \<open>\<^verbatim>\<open>Solver::runSimulation\<close>: the initial snapshot, the loop, the final snapshot.\<close>

definition runSimulation :: "nat \<Rightarrow> Grid \<Rightarrow> Params \<Rightarrow> Sim option" where
  "runSimulation fuel g p =
     (case runLoop fuel p (initSim g) of
        None \<Rightarrow> None
      | Some s \<Rightarrow> Some (s\<lparr>written_S := (snapshot_idx_S s, grid_S s, time_S s) # written_S s\<rparr>))"

text \<open>The state of the run after \<open>k\<close> tests of the loop condition: the body is applied
  while the condition holds, and the state stays as it is once the loop has exited.\<close>

definition loopStep :: "Params \<Rightarrow> Sim \<Rightarrow> Sim" where
  "loopStep p s = (if time_S s < t_final_par p then loopBody p s else s)"

text \<open>The signal speed \<open>|u| + c_s\<close> of a cell's primitive state, as the specification of
  the time step names it.\<close>

definition signalSpeed :: "real \<Rightarrow> Cell \<Rightarrow> real" where
  "signalSpeed gamma c =
     \<bar>u_P (conservedToPrimitive c gamma)\<bar> + soundSpeed (conservedToPrimitive c gamma) gamma"

text \<open>Two small grids used as concrete inputs: two cells moving against each other, and
  a grid with a single moving cell.\<close>

definition two_cells :: Grid where
  "two_cells = \<lparr>nx_G = 2, x0_G = 0, x1_G = 1, dx_G = 1 / 2,
                cells_G = [\<lparr>rho = 1, mom = 2, energy = 4\<rparr>,
                           \<lparr>rho = 1 / 8, mom = - (1 / 8), energy = 17 / 16\<rparr>]\<rparr>"

definition one_cell :: Grid where
  "one_cell = \<lparr>nx_G = 1, x0_G = 0, x1_G = 1, dx_G = 1,
               cells_G = [\<lparr>rho = 1, mom = 1, energy = 5 / 2\<rparr>]\<rparr>"

section \<open>Properties of the conversions and of the flux\<close>

lemma std_max_eq: "std_max a b = max a b"
  by (simp add: std_max_def max_def)

lemma std_min_eq: "std_min a b = min a b"
  by (simp add: std_min_def min_def)

lemma soundSpeed_pos:
  assumes "0 < gamma"
  shows "0 < soundSpeed q gamma"
proof -
  have "0 < max (p_P q) (1 / 10 ^ 14)" and "0 < max (rho_P q) (1 / 10 ^ 14)"
    by (simp_all add: less_max_iff_disj)
  with assms have "0 < gamma * max (p_P q) (1 / 10 ^ 14) / max (rho_P q) (1 / 10 ^ 14)"
    by simp
  then show ?thesis
    by (simp add: soundSpeed_def std_max_eq Let_def del: divide_pos_pos)
qed

lemma conservedFlux_eq_physicalFlux:
  "\<lparr>rho_F = mom (primitiveToConserved q gamma),
    mom_F = (mom (primitiveToConserved q gamma) * u_P q) + p_P q,
    eng_F = u_P q * (energy (primitiveToConserved q gamma) + p_P q)\<rparr> = physicalFlux q gamma"
  by (simp add: physicalFlux_def primitiveToConserved_def Let_def power2_eq_square)

lemma computeHLLFlux_waves:
  "computeHLLFlux L R gamma =
     (if waveSL L R gamma \<ge> 0 then physicalFlux L gamma
      else if waveSR L R gamma \<le> 0 then physicalFlux R gamma
      else \<lparr>rho_F = (waveSR L R gamma * rho_F (physicalFlux L gamma)
                      - waveSL L R gamma * rho_F (physicalFlux R gamma)
                      + waveSL L R gamma * waveSR L R gamma
                        * (rho (primitiveToConserved R gamma) - rho (primitiveToConserved L gamma)))
                     * (1 / (waveSR L R gamma - waveSL L R gamma)),
            mom_F = (waveSR L R gamma * mom_F (physicalFlux L gamma)
                      - waveSL L R gamma * mom_F (physicalFlux R gamma)
                      + waveSL L R gamma * waveSR L R gamma
                        * (mom (primitiveToConserved R gamma) - mom (primitiveToConserved L gamma)))
                     * (1 / (waveSR L R gamma - waveSL L R gamma)),
            eng_F = (waveSR L R gamma * eng_F (physicalFlux L gamma)
                      - waveSL L R gamma * eng_F (physicalFlux R gamma)
                      + waveSL L R gamma * waveSR L R gamma
                        * (energy (primitiveToConserved R gamma) - energy (primitiveToConserved L gamma)))
                     * (1 / (waveSR L R gamma - waveSL L R gamma))\<rparr>)"
  unfolding computeHLLFlux_def Let_def conservedFlux_eq_physicalFlux waveSL_def [symmetric]
    waveSR_def [symmetric]
  by (rule refl)

text \<open>Claim C2. For every pair of primitive states and every \<open>\<gamma>\<close>, \<open>computeHLLFlux\<close> is the
  three-branch HLL formula of the specification: with the Davis estimates
  \<open>SL = min (uL - aL) (uR - aR)\<close> and \<open>SR = max (uL + aL) (uR + aR)\<close> it returns the physical
  flux \<open>F_L\<close> when \<open>SL \<ge> 0\<close>, else \<open>F_R\<close> when \<open>SR \<le> 0\<close>, and otherwise
  \<open>(SR F_L - SL F_R + SL SR (U_R - U_L)) / (SR - SL)\<close> in each component. The code computes
  the fluxes from the conserved momentum and multiplies by the reciprocal of \<open>SR - SL\<close>;
  \<open>hll_spec\<close> is the formula as the specification words it.\<close>

theorem computeHLLFlux_branches:
  "computeHLLFlux L R gamma = hll_spec L R gamma"
  unfolding computeHLLFlux_waves hll_spec_def Let_def std_min_eq [symmetric] std_max_eq [symmetric]
    waveSL_def [symmetric] waveSR_def [symmetric]
  by (simp add: divide_inverse)

lemma floor_le_iff: "(if a \<le> b then b else a) = std_max a (b::real)"
  by (simp add: std_max_def)

text \<open>Claim C3. For every conserved cell and every \<open>\<gamma>\<close>, \<open>conservedToPrimitive\<close> returns
  \<open>\<rho> = max (c.\<rho>, 1e-14)\<close>, \<open>u = c.mom / \<rho>\<close> and
  \<open>p = max ((\<gamma> - 1) (c.energy - \<rho>u\<^sup>2 / 2), 1e-14)\<close>; so the density and the pressure it
  returns are at least \<open>1e-14\<close>. The helper of the same name in grid.cpp, which floors with
  \<open>\<le>\<close> tests, is the same function at \<open>\<gamma> = GAMMA\<close>.\<close>

theorem conservedToPrimitive_floor:
  "conservedToPrimitive c gamma =
     \<lparr>rho_P = max (rho c) (1 / 10 ^ 14),
      u_P = mom c / max (rho c) (1 / 10 ^ 14),
      p_P = max ((gamma - 1) * (energy c
              - (1 / 2) * max (rho c) (1 / 10 ^ 14) * (mom c / max (rho c) (1 / 10 ^ 14))\<^sup>2))
              (1 / 10 ^ 14)\<rparr>
   \<and> 1 / 10 ^ 14 \<le> rho_P (conservedToPrimitive c gamma)
   \<and> 1 / 10 ^ 14 \<le> p_P (conservedToPrimitive c gamma)
   \<and> conservedToPrimitive_grid c = conservedToPrimitive c GAMMA"
proof -
  define r where "r = max (rho c) (1 / 10 ^ 14)"
  have kin: "0.5 * r * (mom c / r) * (mom c / r) = (1 / 2) * r * (mom c / r)\<^sup>2"
    by (simp add: power2_eq_square)
  have shape: "conservedToPrimitive c gamma =
     \<lparr>rho_P = r, u_P = mom c / r,
      p_P = max ((gamma - 1) * (energy c - (1 / 2) * r * (mom c / r)\<^sup>2)) (1 / 10 ^ 14)\<rparr>"
    unfolding conservedToPrimitive_def Let_def std_max_eq r_def [symmetric] kin by (rule refl)
  have grid: "conservedToPrimitive_grid c = conservedToPrimitive c GAMMA"
    unfolding conservedToPrimitive_grid_def conservedToPrimitive_def Let_def floor_le_iff
    by (rule refl)
  have "1 / 10 ^ 14 \<le> r" unfolding r_def by (rule max.cobounded2)
  then show ?thesis
    using shape grid unfolding r_def by simp
qed

lemma wave_spread:
  "soundSpeed L gamma + soundSpeed R gamma \<le> waveSR L R gamma - waveSL L R gamma"
  if "0 \<le> soundSpeed L gamma" "0 \<le> soundSpeed R gamma"
  using that by (simp add: waveSL_def waveSR_def std_min_eq std_max_eq min_def max_def)

text \<open>Claim C10. For every pair of primitive states and every \<open>\<gamma> > 0\<close>, the wave-speed
  estimates of \<open>computeHLLFlux\<close> satisfy \<open>SR - SL \<ge> aL + aR > 0\<close>: both sound speeds are
  strictly positive because pressure and density are floored at \<open>1e-14\<close>. So the divisor
  \<open>SR - SL\<close> of the subsonic branch is never zero.\<close>

theorem hll_divisor_positive:
  assumes "0 < gamma"
  shows "soundSpeed L gamma + soundSpeed R gamma \<le> waveSR L R gamma - waveSL L R gamma
       \<and> 0 < soundSpeed L gamma + soundSpeed R gamma
       \<and> waveSR L R gamma - waveSL L R gamma \<noteq> 0"
proof -
  have pos: "0 < soundSpeed L gamma" "0 < soundSpeed R gamma"
    using assms by (rule soundSpeed_pos)+
  then have "soundSpeed L gamma + soundSpeed R gamma \<le> waveSR L R gamma - waveSL L R gamma"
    by (simp add: wave_spread)
  with pos show ?thesis by auto
qed

text \<open>The hypothesis of C10 holds at \<open>\<gamma> = 2\<close>.\<close>

theorem hll_divisor_positive_witness:
  "(0::real) < 2
   \<and> soundSpeed \<lparr>rho_P = 1, u_P = 0, p_P = 2\<rparr> 2 + soundSpeed \<lparr>rho_P = 1, u_P = 1, p_P = 8\<rparr> 2
       \<le> waveSR \<lparr>rho_P = 1, u_P = 0, p_P = 2\<rparr> \<lparr>rho_P = 1, u_P = 1, p_P = 8\<rparr> 2
         - waveSL \<lparr>rho_P = 1, u_P = 0, p_P = 2\<rparr> \<lparr>rho_P = 1, u_P = 1, p_P = 8\<rparr> 2
   \<and> 0 < soundSpeed \<lparr>rho_P = 1, u_P = 0, p_P = 2\<rparr> 2 + soundSpeed \<lparr>rho_P = 1, u_P = 1, p_P = 8\<rparr> 2
   \<and> waveSR \<lparr>rho_P = 1, u_P = 0, p_P = 2\<rparr> \<lparr>rho_P = 1, u_P = 1, p_P = 8\<rparr> 2
         - waveSL \<lparr>rho_P = 1, u_P = 0, p_P = 2\<rparr> \<lparr>rho_P = 1, u_P = 1, p_P = 8\<rparr> 2 \<noteq> 0"
proof -
  have g: "(0::real) < 2" by simp
  from hll_divisor_positive [OF g] show ?thesis using g by blast
qed

text \<open>Claim C5. For every primitive state \<open>P\<close> and every \<open>\<gamma>\<close>, the HLL flux between \<open>P\<close> and
  itself is the physical flux \<open>F(P) = (\<rho>u, \<rho>u\<^sup>2 + p, u(E + p))\<close>. When the sound speed is
  zero the subsonic branch is not taken, so no case needs \<open>SR \<noteq> SL\<close> as a hypothesis.\<close>

theorem hll_consistency:
  "computeHLLFlux q q gamma = physicalFlux q gamma"
proof -
  let ?a = "soundSpeed q gamma"
  have SL: "waveSL q q gamma = u_P q - ?a" and SR: "waveSR q q gamma = u_P q + ?a"
    by (simp_all add: waveSL_def waveSR_def std_min_def std_max_def)
  show ?thesis
  proof (cases "?a = 0")
    case True
    then show ?thesis by (simp add: computeHLLFlux_waves SL SR)
  next
    case False
    then have ne: "(u_P q + ?a) - (u_P q - ?a) \<noteq> 0" by simp
    show ?thesis
      unfolding computeHLLFlux_waves SL SR
      using False by (simp add: field_simps)
  qed
qed

lemma roundtrip_floor:
  assumes "1 / 10 ^ 14 \<le> rho_P q" "1 / 10 ^ 14 \<le> p_P q" "gamma \<noteq> 1"
  shows "conservedToPrimitive (primitiveToConserved q gamma) gamma = q"
proof -
  have pos: "0 < rho_P q" using assms(1) by (rule less_le_trans [rotated]) simp
  have r: "std_max (rho_P q) (1 / 10 ^ 14) = rho_P q"
    using assms(1) by (simp add: std_max_def)
  have v: "rho_P q * u_P q / rho_P q = u_P q"
    using pos by simp
  have pr: "(gamma - 1) * (p_P q / (gamma - 1) + 0.5 * rho_P q * u_P q * u_P q
              - 0.5 * rho_P q * u_P q * u_P q) = p_P q"
    using assms(3) by simp
  have pm: "std_max (p_P q) (1 / 10 ^ 14) = p_P q"
    using assms(2) by (simp add: std_max_def)
  show ?thesis
    unfolding conservedToPrimitive_def primitiveToConserved_def Let_def
    by (simp only: Cell.simps r v pr pm Primitive.surjective [symmetric] Primitive.simps)
      (simp)
qed

text \<open>Claim C4, amended. For every primitive state with \<open>\<rho> \<ge> 1e-14\<close> and \<open>p \<ge> 1e-14\<close> and
  every \<open>\<gamma>\<close> in \<open>(1, 2]\<close>, converting to conserved variables and back returns the state
  itself (exactly, in real arithmetic).\<close>

theorem roundtrip_exact:
  assumes "1 / 10 ^ 14 \<le> rho_P q" "1 / 10 ^ 14 \<le> p_P q" "1 < gamma" "gamma \<le> 2"
  shows "conservedToPrimitive (primitiveToConserved q gamma) gamma = q"
  using assms by (intro roundtrip_floor) simp_all

text \<open>The hypotheses of the amended C4 hold at \<open>(\<rho>, u, p) = (1, 3, 2)\<close>, \<open>\<gamma> = 1.4\<close>.\<close>

theorem roundtrip_exact_witness:
  "(1 / 10 ^ 14 :: real) \<le> rho_P \<lparr>rho_P = 1, u_P = 3, p_P = 2\<rparr>
   \<and> (1 / 10 ^ 14 :: real) \<le> p_P \<lparr>rho_P = 1, u_P = 3, p_P = 2\<rparr>
   \<and> (1::real) < 14 / 10 \<and> (14 / 10 :: real) \<le> 2
   \<and> conservedToPrimitive (primitiveToConserved \<lparr>rho_P = 1, u_P = 3, p_P = 2\<rparr> (14 / 10))
        (14 / 10) = \<lparr>rho_P = 1, u_P = 3, p_P = 2\<rparr>"
  using roundtrip_exact [of "\<lparr>rho_P = 1, u_P = 3, p_P = 2\<rparr>" "14 / 10"] by simp

text \<open>Claim C4 as stated (\<open>\<rho> > 0\<close> and \<open>p > 0\<close> suffice) fails below the floor: for
  \<open>(\<rho>, u, p) = (1e-15, 1, 1)\<close> and \<open>\<gamma> = 2\<close> the conserved state is
  \<open>(1e-15, 1e-15, 1 + 5e-16)\<close>, \<open>conservedToPrimitive\<close> floors the density to \<open>1e-14\<close> and
  returns the velocity \<open>1e-15 / 1e-14 = 0.1\<close> instead of \<open>1\<close>.\<close>

theorem roundtrip_counterexample:
  "(0::real) < rho_P \<lparr>rho_P = 1 / 10 ^ 15, u_P = 1, p_P = 1\<rparr>
   \<and> (0::real) < p_P \<lparr>rho_P = 1 / 10 ^ 15, u_P = 1, p_P = 1\<rparr>
   \<and> (1::real) < 2 \<and> (2::real) \<le> 2
   \<and> u_P (conservedToPrimitive
             (primitiveToConserved \<lparr>rho_P = 1 / 10 ^ 15, u_P = 1, p_P = 1\<rparr> 2) 2) = 1 / 10
   \<and> conservedToPrimitive (primitiveToConserved \<lparr>rho_P = 1 / 10 ^ 15, u_P = 1, p_P = 1\<rparr> 2) 2
       \<noteq> \<lparr>rho_P = 1 / 10 ^ 15, u_P = 1, p_P = 1\<rparr>"
  by (simp add: conservedToPrimitive_def primitiveToConserved_def Let_def std_max_def)

section \<open>The grid\<close>

lemma sqrt4: "sqrt 4 = 2"
  using real_sqrt_abs [of 2] by simp

lemma grid_inv_Grid_new: "grid_inv (Grid_new n a b)"
  by (simp add: grid_inv_def Grid_new_def Let_def)

lemma fold_cells_update_inv:
  "grid_inv g \<Longrightarrow>
     grid_inv (fold (\<lambda>i h. h\<lparr>cells_G := (cells_G h)[i := c i h]\<rparr>) is g)"
  by (induction "is" arbitrary: g) (simp_all add: grid_inv_def)

lemma grid_inv_initialize:
  "grid_inv g \<Longrightarrow> grid_inv (initialize g left right interface_pos)"
  unfolding initialize_def Let_def by (rule fold_cells_update_inv)

lemma grid_inv_setCell: "grid_inv g \<Longrightarrow> grid_inv (setCell g i c)"
  by (simp add: grid_inv_def setCell_def)

lemma grid_inv_applyBoundaryConditions:
  "grid_inv g \<Longrightarrow> grid_inv (applyBoundaryConditions g bc)"
  by (simp add: grid_inv_def applyBoundaryConditions_def Let_def)

lemma grid_inv_two_cells: "grid_inv two_cells"
  by (simp add: grid_inv_def two_cells_def)

lemma grid_inv_one_cell: "grid_inv one_cell"
  by (simp add: grid_inv_def one_cell_def)

text \<open>Claim C8. For an index outside \<open>[0, N)\<close>, \<open>getCell\<close> returns the cell with three
  zero components and \<open>setCell\<close> returns the grid unchanged; no error is raised in either
  case (both functions are total and have no error result). For an index inside the range
  \<open>getCell\<close> reads cell \<open>i\<close> and \<open>setCell\<close> replaces cell \<open>i\<close> and nothing else: afterwards
  every index \<open>j\<close> reads \<open>v\<close> if \<open>j = i\<close> and its old value otherwise.\<close>

theorem cell_access:
  assumes "grid_inv g"
  shows "if 0 \<le> i \<and> i < nx_G g
         then getCell g i = cells_G g ! nat i
            \<and> setCell g i v = g\<lparr>cells_G := (cells_G g)[nat i := v]\<rparr>
            \<and> getCell (setCell g i v) j = (if j = i then v else getCell g j)
         else getCell g i = \<lparr>rho = 0, mom = 0, energy = 0\<rparr>
            \<and> setCell g i v = g"
  using assms
  by (auto simp add: grid_inv_def getCell_def setCell_def zeroCell_def nth_list_update
      nat_eq_iff)

text \<open>The invariant holds for \<open>two_cells\<close>; index 1 is inside its range, 2 and -1 are
  outside.\<close>

theorem cell_access_witness:
  "grid_inv two_cells
   \<and> getCell two_cells 1 = \<lparr>rho = 1 / 8, mom = - (1 / 8), energy = 17 / 16\<rparr>
   \<and> cells_G (setCell two_cells 1 \<lparr>rho = 7, mom = 8, energy = 9\<rparr>)
       = [\<lparr>rho = 1, mom = 2, energy = 4\<rparr>, \<lparr>rho = 7, mom = 8, energy = 9\<rparr>]
   \<and> getCell (setCell two_cells 1 \<lparr>rho = 7, mom = 8, energy = 9\<rparr>) 0
       = \<lparr>rho = 1, mom = 2, energy = 4\<rparr>
   \<and> getCell two_cells 2 = \<lparr>rho = 0, mom = 0, energy = 0\<rparr>
   \<and> setCell two_cells 2 \<lparr>rho = 7, mom = 8, energy = 9\<rparr> = two_cells
   \<and> getCell two_cells (- 1) = \<lparr>rho = 0, mom = 0, energy = 0\<rparr>
   \<and> setCell two_cells (- 1) \<lparr>rho = 7, mom = 8, energy = 9\<rparr> = two_cells"
  using cell_access [OF grid_inv_two_cells, of 1 "\<lparr>rho = 7, mom = 8, energy = 9\<rparr>" 0]
    cell_access [OF grid_inv_two_cells, of 2 "\<lparr>rho = 7, mom = 8, energy = 9\<rparr>"]
    cell_access [OF grid_inv_two_cells, of "- 1" "\<lparr>rho = 7, mom = 8, energy = 9\<rparr>"]
    grid_inv_two_cells
  by (simp add: two_cells_def getCell_def)

lemma map_rho_negate:
  "i < length cs \<Longrightarrow> map rho (cs[i := (cs ! i)\<lparr>mom := m\<rparr>]) = map rho cs"
  by (simp add: map_update list_update_same_conv)

lemma map_energy_negate:
  "i < length cs \<Longrightarrow> map energy (cs[i := (cs ! i)\<lparr>mom := m\<rparr>]) = map energy cs"
  by (simp add: map_update list_update_same_conv)

text \<open>Claim C7, amended. \<open>applyBoundaryConditions\<close> changes nothing but momenta: the
  geometry, the number of cells and every density and energy stay as they are. For the
  kind \<open>reflective\<close> on a grid of at least two cells the momentum of cell 0 and of cell
  \<open>N - 1\<close> is negated and every other momentum is kept. In every other case (kind
  \<open>outflow\<close>, \<open>transmissive\<close> or unrecognised, or a grid of a single cell) the grid is
  unchanged.\<close>

theorem applyBoundaryConditions_effect:
  assumes "grid_inv g"
  shows "nx_G (applyBoundaryConditions g bc) = nx_G g
       \<and> x0_G (applyBoundaryConditions g bc) = x0_G g
       \<and> x1_G (applyBoundaryConditions g bc) = x1_G g
       \<and> dx_G (applyBoundaryConditions g bc) = dx_G g
       \<and> length (cells_G (applyBoundaryConditions g bc)) = length (cells_G g)
       \<and> map rho (cells_G (applyBoundaryConditions g bc)) = map rho (cells_G g)
       \<and> map energy (cells_G (applyBoundaryConditions g bc)) = map energy (cells_G g)
       \<and> (if bc = ''reflective'' \<and> 2 \<le> nx_G g
          then map mom (cells_G (applyBoundaryConditions g bc)) =
                 (map mom (cells_G g))
                   [0 := - mom (cells_G g ! 0),
                    nat (nx_G g - 1) := - mom (cells_G g ! nat (nx_G g - 1))]
          else applyBoundaryConditions g bc = g)"
proof (cases "bc = ''reflective'' \<and> 2 \<le> nx_G g")
  case False
  then have "applyBoundaryConditions g bc = g"
    by (auto simp add: applyBoundaryConditions_def)
  with False show ?thesis by auto
next
  case True
  let ?cs = "cells_G g"
  let ?k = "nat (nx_G g - 1)"
  let ?cs1 = "?cs[0 := (?cs ! 0)\<lparr>mom := - mom (?cs ! 0)\<rparr>]"
  let ?cs2 = "?cs1[?k := (?cs1 ! ?k)\<lparr>mom := - mom (?cs1 ! ?k)\<rparr>]"
  from True have bc: "bc = ''reflective''" and n2: "2 \<le> nx_G g" by simp_all
  have res: "applyBoundaryConditions g bc = g\<lparr>cells_G := ?cs2\<rparr>"
    using n2 by (simp add: applyBoundaryConditions_def bc Let_def)
  from assms n2 have len: "0 < length ?cs" "?k < length ?cs" "?k \<noteq> 0"
    by (simp_all add: grid_inv_def)
  have k1: "?cs1 ! ?k = ?cs ! ?k"
    using len by simp
  have len1: "?k < length ?cs1"
    using len by simp
  have r: "map rho ?cs2 = map rho ?cs"
    using map_rho_negate [OF len1] map_rho_negate [OF len(1)] by (rule trans)
  have e: "map energy ?cs2 = map energy ?cs"
    using map_energy_negate [OF len1] map_energy_negate [OF len(1)] by (rule trans)
  have m: "map mom ?cs2 = (map mom ?cs)[0 := - mom (?cs ! 0), ?k := - mom (?cs ! ?k)]"
    using len by (simp add: map_update)
  show ?thesis
    unfolding res using True r e m by simp
qed

text \<open>The invariant holds for \<open>two_cells\<close>, on which \<open>reflective\<close> negates both momenta
  and the other kinds do nothing.\<close>

theorem applyBoundaryConditions_effect_witness:
  "grid_inv two_cells
   \<and> cells_G (applyBoundaryConditions two_cells ''reflective'') =
       [\<lparr>rho = 1, mom = - 2, energy = 4\<rparr>, \<lparr>rho = 1 / 8, mom = 1 / 8, energy = 17 / 16\<rparr>]
   \<and> map mom (cells_G (applyBoundaryConditions two_cells ''reflective'')) = [- 2, 1 / 8]
   \<and> map rho (cells_G (applyBoundaryConditions two_cells ''reflective'')) = [1, 1 / 8]
   \<and> applyBoundaryConditions two_cells ''outflow'' = two_cells
   \<and> applyBoundaryConditions two_cells ''periodic'' = two_cells"
  using applyBoundaryConditions_effect [OF grid_inv_two_cells, of "''reflective''"]
    applyBoundaryConditions_effect [OF grid_inv_two_cells, of "''outflow''"]
    applyBoundaryConditions_effect [OF grid_inv_two_cells, of "''periodic''"]
    grid_inv_two_cells
  by (simp add: two_cells_def applyBoundaryConditions_def)

text \<open>Claim C7 as stated (for every grid, \<open>reflective\<close> negates the momentum of cell 0
  and of cell \<open>N - 1\<close>) fails on a grid of one cell: the guard \<^verbatim>\<open>if (nx_ < 2) return;\<close>
  leaves the momentum 1 of the only cell as it is.\<close>

theorem reflective_single_cell_counterexample:
  "grid_inv one_cell
   \<and> nx_G one_cell = 1
   \<and> mom (cells_G one_cell ! 0) = 1
   \<and> applyBoundaryConditions one_cell ''reflective'' = one_cell
   \<and> mom (cells_G (applyBoundaryConditions one_cell ''reflective'') ! 0)
       \<noteq> - mom (cells_G one_cell ! 0)"
  by (simp add: grid_inv_def one_cell_def applyBoundaryConditions_def)

section \<open>The time step\<close>

lemma fold_nth: "fold (\<lambda>i. f (xs ! i)) [0..<length xs] s = fold f xs s"
proof -
  have "fold (\<lambda>i. f (xs ! i)) [0..<length xs] s = fold f (map ((!) xs) [0..<length xs]) s"
    by (simp add: fold_map comp_def)
  then show ?thesis by (simp add: map_nth)
qed

lemma fold_running_max:
  fixes sig :: "'a \<Rightarrow> real"
  shows "fold (\<lambda>c ms. if sig c > ms then sig c else ms) xs m = Max (insert m (sig ` set xs))"
proof -
  have "(\<lambda>c ms. if sig c > ms then sig c else ms) = (\<lambda>c. max (sig c))"
    by (auto simp add: fun_eq_iff max_def)
  then have "fold (\<lambda>c ms. if sig c > ms then sig c else ms) xs m = fold max (map sig xs) m"
    by (simp add: fold_map comp_def)
  also have "\<dots> = Max (set (m # map sig xs))"
    by (simp only: Max.set_eq_fold)
  finally show ?thesis by simp
qed

text \<open>Claim C6. For every grid, \<open>cfl\<close> and \<open>\<gamma>\<close>, \<open>computeCFL\<close> returns
  \<open>cfl dx / maxSignal\<close>, where \<open>maxSignal\<close> is the maximum of \<open>|u| + c_s\<close> over the cells,
  replaced by \<open>1e-9\<close> when it is smaller. The function returns a number only: it has no
  grid result, as the \<^verbatim>\<open>const Grid &\<close> parameter of the source has it.\<close>

theorem computeCFL_formula:
  assumes "grid_inv g"
  shows "computeCFL g cfl gamma =
           cfl * dx_G g / max (Max (signalSpeed gamma ` set (cells_G g))) (1 / 10 ^ 9)"
proof -
  let ?sig = "signalSpeed gamma"
  let ?upd = "\<lambda>c ms. if ?sig c > ms then ?sig c else ms"
  let ?S = "?sig ` set (cells_G g)"
  from assms have len: "nat (nx_G g) = length (cells_G g)" and ne: "cells_G g \<noteq> []"
    by (auto simp add: grid_inv_def)
  have code: "computeCFL g cfl gamma =
      cfl * dx_G g /
        (if fold (\<lambda>i. ?upd (cells_G g ! i)) [0..<length (cells_G g)] 0 < 1 / 10 ^ 9
         then 1 / 10 ^ 9
         else fold (\<lambda>i. ?upd (cells_G g ! i)) [0..<length (cells_G g)] 0)"
    unfolding computeCFL_def Let_def signalSpeed_def len by (rule refl)
  have run: "fold (\<lambda>i. ?upd (cells_G g ! i)) [0..<length (cells_G g)] 0 = Max (insert 0 ?S)"
    using fold_nth [of ?upd "cells_G g" 0] by (simp only: fold_running_max)
  have "Max (insert 0 ?S) = max 0 (Max ?S)"
    using ne by simp
  then have floor: "(if Max (insert 0 ?S) < 1 / 10 ^ 9 then 1 / 10 ^ 9 else Max (insert 0 ?S))
             = max (Max ?S) (1 / 10 ^ 9)"
    by (simp add: max_def)
  show ?thesis
    unfolding code run floor by (rule refl)
qed

text \<open>The invariant holds for \<open>one_cell\<close>, whose only signal speed is \<open>1 + 2\<close> at
  \<open>\<gamma> = 2\<close>.\<close>

theorem computeCFL_formula_witness:
  "grid_inv one_cell
   \<and> computeCFL one_cell (8 / 10) 2 =
       (8 / 10) * dx_G one_cell / max (Max (signalSpeed 2 ` set (cells_G one_cell))) (1 / 10 ^ 9)
   \<and> computeCFL one_cell (8 / 10) 2 = 4 / 15"
proof -
  have v: "computeCFL one_cell (8 / 10) 2 = 4 / 15"
    by (simp add: computeCFL_def one_cell_def Let_def conservedToPrimitive_def soundSpeed_def
        std_max_def sqrt4)
  from computeCFL_formula [OF grid_inv_one_cell] show ?thesis
    using grid_inv_one_cell v by blast
qed

section \<open>One conservative update\<close>

lemma length_computeFluxes: "length (computeFluxes g gamma bc) = nat (nx_G g) + 1"
  by (simp add: computeFluxes_def)

lemma applyBoundaryConditions_outflow: "applyBoundaryConditions g ''outflow'' = g"
  by (simp add: applyBoundaryConditions_def)

lemma fold_updateCell:
  assumes "length (cells_G g) = nat (nx_G g)" "k \<le> nat (nx_G g)"
  shows "nx_G (fold (updateCell F dt dx0) [0..<k] g) = nx_G g
       \<and> length (cells_G (fold (updateCell F dt dx0) [0..<k] g)) = length (cells_G g)
       \<and> (\<forall>j < length (cells_G g).
            cells_G (fold (updateCell F dt dx0) [0..<k] g) ! j =
              (if j < k
               then \<lparr>rho = rho (cells_G g ! j) - dt / dx0 * (rho_F (F ! (j + 1)) - rho_F (F ! j)),
                     mom = mom (cells_G g ! j) - dt / dx0 * (mom_F (F ! (j + 1)) - mom_F (F ! j)),
                     energy = energy (cells_G g ! j)
                                - dt / dx0 * (eng_F (F ! (j + 1)) - eng_F (F ! j))\<rparr>
               else cells_G g ! j))"
  using assms(2)
proof (induction k)
  case 0
  show ?case by simp
next
  case (Suc k)
  let ?h = "fold (updateCell F dt dx0) [0..<k] g"
  from Suc have IH: "nx_G ?h = nx_G g" "length (cells_G ?h) = length (cells_G g)"
    "\<forall>j < length (cells_G g). cells_G ?h ! j =
              (if j < k
               then \<lparr>rho = rho (cells_G g ! j) - dt / dx0 * (rho_F (F ! (j + 1)) - rho_F (F ! j)),
                     mom = mom (cells_G g ! j) - dt / dx0 * (mom_F (F ! (j + 1)) - mom_F (F ! j)),
                     energy = energy (cells_G g ! j)
                                - dt / dx0 * (eng_F (F ! (j + 1)) - eng_F (F ! j))\<rparr>
               else cells_G g ! j)"
    by simp_all
  have k: "k < length (cells_G g)" "int k < nx_G g"
    using Suc.prems assms(1) by simp_all
  have cur: "cells_G ?h ! k = cells_G g ! k"
    using IH(3) k(1) by simp
  have fold_Suc: "fold (updateCell F dt dx0) [0..<Suc k] g = updateCell F dt dx0 k ?h"
    by simp
  show ?case
    unfolding fold_Suc
    using IH k cur
    by (auto simp add: updateCell_def setCell_def Let_def nth_list_update less_Suc_eq)
qed

lemma telescoping_sum:
  fixes f :: "'a \<Rightarrow> real" and G :: "nat \<Rightarrow> real"
  assumes "length cs' = length cs"
    and "\<forall>j < length cs. f (cs' ! j) = f (cs ! j) - r * (G (j + 1) - G j)"
  shows "sum_list (map f cs') = sum_list (map f cs) - r * (G (length cs) - G 0)"
proof -
  have "sum_list (map f cs') = (\<Sum>j = 0..<length cs. f (cs' ! j))"
    using assms(1) by (simp add: sum_list_sum_nth)
  also have "\<dots> = (\<Sum>j = 0..<length cs. f (cs ! j) - r * (G (Suc j) - G j))"
    using assms(2) by simp
  also have "\<dots> = (\<Sum>j = 0..<length cs. f (cs ! j)) - r * (\<Sum>j = 0..<length cs. G (Suc j) - G j)"
    by (simp only: sum_subtractf sum_distrib_left [symmetric])
  also have "(\<Sum>j = 0..<length cs. G (Suc j) - G j) = G (length cs) - G 0"
    by (rule sum_Suc_diff') simp
  also have "(\<Sum>j = 0..<length cs. f (cs ! j)) = sum_list (map f cs)"
    by (simp add: sum_list_sum_nth)
  finally show ?thesis .
qed

text \<open>Claim C1. For every grid with \<open>N \<ge> 1\<close> cells, after one \<open>step\<close> with the boundary
  kind \<open>outflow\<close>, the sum over the \<open>N\<close> cells of each conserved component (density,
  momentum, energy) is the old sum minus \<open>(dt / dx) (flux[N] - flux[0])\<close>, where
  \<open>flux[0..N]\<close> are the \<open>N + 1\<close> interface fluxes of the state before the update: the
  fluxes at the interior interfaces cancel.\<close>

theorem step_conservation:
  assumes "grid_inv g" and "step g time dt gamma ''outflow'' = (g', t')"
  shows "length (cells_G g') = nat (nx_G g)
       \<and> length (computeFluxes g gamma ''outflow'') = nat (nx_G g) + 1
       \<and> sum_list (map rho (cells_G g')) =
           sum_list (map rho (cells_G g))
           - dt / dx_G g * (rho_F (computeFluxes g gamma ''outflow'' ! nat (nx_G g))
                            - rho_F (computeFluxes g gamma ''outflow'' ! 0))
       \<and> sum_list (map mom (cells_G g')) =
           sum_list (map mom (cells_G g))
           - dt / dx_G g * (mom_F (computeFluxes g gamma ''outflow'' ! nat (nx_G g))
                            - mom_F (computeFluxes g gamma ''outflow'' ! 0))
       \<and> sum_list (map energy (cells_G g')) =
           sum_list (map energy (cells_G g))
           - dt / dx_G g * (eng_F (computeFluxes g gamma ''outflow'' ! nat (nx_G g))
                            - eng_F (computeFluxes g gamma ''outflow'' ! 0))"
proof -
  let ?F = "computeFluxes g gamma ''outflow''"
  let ?n = "nat (nx_G g)"
  from assms(1) have len: "length (cells_G g) = ?n"
    by (simp add: grid_inv_def)
  have g': "g' = fold (updateCell ?F dt (dx_G g)) [0..<?n] g"
    using assms(2) by (simp add: step_def Let_def applyBoundaryConditions_outflow)
  note upd = fold_updateCell [OF len order_refl, of ?F dt "dx_G g", folded g']
  from upd have same_len: "length (cells_G g') = length (cells_G g)"
    by simp
  from upd have cell: "\<forall>j < length (cells_G g). cells_G g' ! j =
      \<lparr>rho = rho (cells_G g ! j) - dt / dx_G g * (rho_F (?F ! (j + 1)) - rho_F (?F ! j)),
       mom = mom (cells_G g ! j) - dt / dx_G g * (mom_F (?F ! (j + 1)) - mom_F (?F ! j)),
       energy = energy (cells_G g ! j) - dt / dx_G g * (eng_F (?F ! (j + 1)) - eng_F (?F ! j))\<rparr>"
    using len by simp
  have "sum_list (map rho (cells_G g')) =
          sum_list (map rho (cells_G g))
          - dt / dx_G g * (rho_F (?F ! length (cells_G g)) - rho_F (?F ! 0))"
    by (rule telescoping_sum [OF same_len, of rho _ "\<lambda>j. rho_F (?F ! j)"]) (simp add: cell)
  moreover have "sum_list (map mom (cells_G g')) =
          sum_list (map mom (cells_G g))
          - dt / dx_G g * (mom_F (?F ! length (cells_G g)) - mom_F (?F ! 0))"
    by (rule telescoping_sum [OF same_len, of mom _ "\<lambda>j. mom_F (?F ! j)"]) (simp add: cell)
  moreover have "sum_list (map energy (cells_G g')) =
          sum_list (map energy (cells_G g))
          - dt / dx_G g * (eng_F (?F ! length (cells_G g)) - eng_F (?F ! 0))"
    by (rule telescoping_sum [OF same_len, of energy _ "\<lambda>j. eng_F (?F ! j)"]) (simp add: cell)
  ultimately show ?thesis
    using same_len length_computeFluxes [of g gamma "''outflow''"] unfolding len by blast
qed

text \<open>The invariant holds for \<open>two_cells\<close>, and \<open>step\<close> returns a grid and a time.\<close>

theorem step_conservation_witness:
  "grid_inv two_cells
   \<and> step two_cells 0 (1 / 10) 2 ''outflow'' =
       (fst (step two_cells 0 (1 / 10) 2 ''outflow''), 1 / 10)
   \<and> length (cells_G (fst (step two_cells 0 (1 / 10) 2 ''outflow''))) = 2
   \<and> sum_list (map rho (cells_G (fst (step two_cells 0 (1 / 10) 2 ''outflow'')))) =
       sum_list (map rho (cells_G two_cells))
       - (1 / 10) / dx_G two_cells
         * (rho_F (computeFluxes two_cells 2 ''outflow'' ! nat (nx_G two_cells))
            - rho_F (computeFluxes two_cells 2 ''outflow'' ! 0))
   \<and> sum_list (map mom (cells_G (fst (step two_cells 0 (1 / 10) 2 ''outflow'')))) =
       sum_list (map mom (cells_G two_cells))
       - (1 / 10) / dx_G two_cells
         * (mom_F (computeFluxes two_cells 2 ''outflow'' ! nat (nx_G two_cells))
            - mom_F (computeFluxes two_cells 2 ''outflow'' ! 0))
   \<and> sum_list (map energy (cells_G (fst (step two_cells 0 (1 / 10) 2 ''outflow'')))) =
       sum_list (map energy (cells_G two_cells))
       - (1 / 10) / dx_G two_cells
         * (eng_F (computeFluxes two_cells 2 ''outflow'' ! nat (nx_G two_cells))
            - eng_F (computeFluxes two_cells 2 ''outflow'' ! 0))"
proof -
  have st: "step two_cells 0 (1 / 10) 2 ''outflow'' =
       (fst (step two_cells 0 (1 / 10) 2 ''outflow''), 1 / 10)"
    by (simp add: step_def Let_def)
  have n: "nat (nx_G two_cells) = 2"
    by (simp add: two_cells_def)
  from step_conservation [OF grid_inv_two_cells st] show ?thesis
    using grid_inv_two_cells st n by simp
qed

lemma grid_inv_step:
  assumes "grid_inv g"
  shows "grid_inv (fst (step g time dt gamma bc))"
proof -
  let ?g1 = "applyBoundaryConditions g bc"
  from assms have inv1: "grid_inv ?g1"
    by (rule grid_inv_applyBoundaryConditions)
  then have len: "length (cells_G ?g1) = nat (nx_G ?g1)"
    by (simp add: grid_inv_def)
  have nx1: "nx_G ?g1 = nx_G g"
    by (simp add: applyBoundaryConditions_def Let_def)
  from fold_updateCell [OF len order_refl] inv1 show ?thesis
    by (simp add: step_def Let_def grid_inv_def nx1)
qed

section \<open>The driver\<close>

lemma step_time: "snd (step g time dt gamma bc) = time + dt"
  by (simp add: step_def Let_def)

lemma loopBody_time:
  "time_S (loopBody p s) =
     (if time_S s + computeCFL (grid_S s) (cfl_par p) (gamma_par p) > t_final_par p
      then t_final_par p
      else time_S s + computeCFL (grid_S s) (cfl_par p) (gamma_par p))"
proof -
  let ?dt0 = "computeCFL (grid_S s) (cfl_par p) (gamma_par p)"
  let ?dt = "if time_S s + ?dt0 > t_final_par p then t_final_par p - time_S s else ?dt0"
  have "time_S (loopBody p s) = snd (step (grid_S s) (time_S s) ?dt (gamma_par p) (bc_type_par p))"
    by (simp add: loopBody_def Let_def split_beta)
  then show ?thesis
    by (simp add: step_time)
qed

lemma loopBody_time_le: "time_S (loopBody p s) \<le> t_final_par p"
  by (simp add: loopBody_time)

lemma loopStep_time_le:
  "time_S s \<le> t_final_par p \<Longrightarrow> time_S (loopStep p s) \<le> t_final_par p"
  by (simp add: loopStep_def loopBody_time_le)

lemma funpow_loopStep_time_le:
  "time_S s \<le> t_final_par p \<Longrightarrow> time_S ((loopStep p ^^ k) s) \<le> t_final_par p"
  by (induction k) (simp_all add: loopStep_time_le)

lemma funpow_loopStep_exited:
  "\<not> time_S s < t_final_par p \<Longrightarrow> (loopStep p ^^ k) s = s"
  by (induction k) (simp_all add: loopStep_def)

lemma runLoop_funpow:
  "runLoop fuel p s =
     (if time_S ((loopStep p ^^ fuel) s) < t_final_par p then None
      else Some ((loopStep p ^^ fuel) s))"
proof (induction fuel arbitrary: s)
  case 0
  show ?case by (simp add: runLoop.simps)
next
  case (Suc k)
  show ?case
  proof (cases "time_S s < t_final_par p")
    case True
    then have "runLoop (Suc k) p s = runLoop k p (loopStep p s)"
      by (simp add: runLoop.simps [of "Suc k"] loopStep_def)
    then show ?thesis
      by (simp add: Suc.IH funpow_swap1)
  next
    case False
    then show ?thesis
      by (simp add: runLoop.simps [of "Suc k"] funpow_loopStep_exited del: funpow.simps)
  qed
qed

lemma funpow_loopStep_stays:
  assumes "\<not> time_S ((loopStep p ^^ k) s) < t_final_par p" "k \<le> n"
  shows "(loopStep p ^^ n) s = (loopStep p ^^ k) s"
proof -
  from assms(2) obtain d where n: "n = d + k" by (metis le_add_diff_inverse2)
  show ?thesis
    unfolding n funpow_add comp_apply
    using assms(1) by (rule funpow_loopStep_exited)
qed

lemma computeCFL_one_cell: "computeCFL one_cell (8 / 10) 2 = 4 / 15"
  by (simp add: computeCFL_def one_cell_def Let_def conservedToPrimitive_def soundSpeed_def
      std_max_def sqrt4)

text \<open>Claim C9, amended. Every pass through the loop body ends at the time
  \<open>min (time + dt, t_final)\<close>, where \<open>dt\<close> is the time step of \<open>computeCFL\<close>. If
  \<open>t_final \<ge> 0\<close>, the simulation time is at most \<open>t_final\<close> at every point of the run, and
  once it has reached \<open>t_final\<close> (after \<open>k\<close> passes) the loop exits there: any fuel of at
  least \<open>k\<close> returns that state, and the run ends at the time \<open>t_final\<close>.\<close>

theorem driver_time_bound:
  assumes "0 \<le> t_final_par p"
  shows "time_S (loopBody p s) =
           min (time_S s + computeCFL (grid_S s) (cfl_par p) (gamma_par p)) (t_final_par p)
       \<and> time_S ((loopStep p ^^ k) (initSim g)) \<le> t_final_par p
       \<and> (t_final_par p \<le> time_S ((loopStep p ^^ k) (initSim g)) \<and> k \<le> fuel \<longrightarrow>
            runLoop fuel p (initSim g) = Some ((loopStep p ^^ k) (initSim g))
          \<and> map_option time_S (runSimulation fuel g p) = Some (t_final_par p))"
proof -
  let ?s = "(loopStep p ^^ k) (initSim g)"
  have clamp: "time_S (loopBody p s) =
           min (time_S s + computeCFL (grid_S s) (cfl_par p) (gamma_par p)) (t_final_par p)"
    by (simp add: loopBody_time min_def)
  have init: "time_S (initSim g) \<le> t_final_par p"
    using assms by (simp add: initSim_def)
  then have bound: "time_S ?s \<le> t_final_par p"
    by (rule funpow_loopStep_time_le)
  have "runLoop fuel p (initSim g) = Some ?s
      \<and> map_option time_S (runSimulation fuel g p) = Some (t_final_par p)"
    if reached: "t_final_par p \<le> time_S ?s" and fuel: "k \<le> fuel"
  proof -
    from reached have ex: "\<not> time_S ?s < t_final_par p" by simp
    have same: "(loopStep p ^^ fuel) (initSim g) = ?s"
      using ex fuel by (rule funpow_loopStep_stays)
    have run: "runLoop fuel p (initSim g) = Some ?s"
      using ex by (simp add: runLoop_funpow same)
    have "time_S ?s = t_final_par p"
      using bound reached by simp
    then show ?thesis
      using run by (simp add: runSimulation_def)
  qed
  with clamp bound show ?thesis by blast
qed

text \<open>With \<open>t_final = 0.1\<close> and \<open>\<gamma> = 2\<close> on \<open>one_cell\<close> the time step \<open>4 / 15\<close> is clamped
  to \<open>0.1\<close>, so the time reaches \<open>t_final\<close> after one pass and the loop exits.\<close>

theorem driver_time_bound_witness:
  "0 \<le> t_final_par (defaultParams\<lparr>t_final_par := 1 / 10, gamma_par := 2\<rparr>)
   \<and> t_final_par (defaultParams\<lparr>t_final_par := 1 / 10, gamma_par := 2\<rparr>)
       \<le> time_S ((loopStep (defaultParams\<lparr>t_final_par := 1 / 10, gamma_par := 2\<rparr>) ^^ 1)
                   (initSim one_cell))
   \<and> (1::nat) \<le> 1
   \<and> time_S ((loopStep (defaultParams\<lparr>t_final_par := 1 / 10, gamma_par := 2\<rparr>) ^^ 1)
                (initSim one_cell)) = 1 / 10
   \<and> runLoop 1 (defaultParams\<lparr>t_final_par := 1 / 10, gamma_par := 2\<rparr>) (initSim one_cell)
       = Some ((loopStep (defaultParams\<lparr>t_final_par := 1 / 10, gamma_par := 2\<rparr>) ^^ 1)
                 (initSim one_cell))
   \<and> map_option time_S
        (runSimulation 1 one_cell (defaultParams\<lparr>t_final_par := 1 / 10, gamma_par := 2\<rparr>))
       = Some (1 / 10)"
proof -
  let ?p = "defaultParams\<lparr>t_final_par := 1 / 10, gamma_par := 2\<rparr>"
  have tf: "t_final_par ?p = 1 / 10" and pos: "0 \<le> t_final_par ?p"
    by (simp_all add: defaultParams_def)
  have c: "computeCFL one_cell (4 / 5) 2 = 4 / 15"
    using computeCFL_one_cell by simp
  have t1: "time_S ((loopStep ?p ^^ 1) (initSim one_cell)) = 1 / 10"
    by (simp add: loopStep_def loopBody_time initSim_def defaultParams_def c)
  from driver_time_bound [OF pos, of "initSim one_cell" 1 one_cell 1] show ?thesis
    using pos t1 tf by simp
qed

text \<open>Claim C9 as stated (the time never exceeds \<open>t_final\<close> at any point of the run) fails
  for a negative \<open>t_final\<close>: with \<open>t_final = -1\<close> the loop is not entered, and the initial and
  the final snapshot are written at the time 0, which exceeds \<open>t_final\<close>.\<close>

theorem driver_negative_t_final_counterexample:
  "t_final_par (defaultParams\<lparr>t_final_par := - 1\<rparr>) < time_S (initSim one_cell)
   \<and> runLoop 0 (defaultParams\<lparr>t_final_par := - 1\<rparr>) (initSim one_cell) = Some (initSim one_cell)
   \<and> map_option time_S (runSimulation 0 one_cell (defaultParams\<lparr>t_final_par := - 1\<rparr>)) = Some 0
   \<and> map_option (map (\<lambda>(i, g, t). t) \<circ> written_S)
        (runSimulation 0 one_cell (defaultParams\<lparr>t_final_par := - 1\<rparr>)) = Some [0, 0]"
  by (simp add: runSimulation_def runLoop.simps [of 0] initSim_def defaultParams_def)

text \<open>The loop need not reach \<open>t_final\<close>: with \<open>cfl = 0\<close> the time step is zero, the time
  stands still, and no amount of fuel lets the loop exit.\<close>

lemma runLoop_zero_cfl:
  assumes "cfl_par p = 0" "time_S s < t_final_par p"
  shows "runLoop fuel p s = None"
  using assms(2)
proof (induction fuel arbitrary: s)
  case 0
  then show ?case by (simp add: runLoop.simps)
next
  case (Suc k)
  have "computeCFL (grid_S s) (cfl_par p) (gamma_par p) = 0"
    by (simp add: computeCFL_def assms(1) Let_def)
  then have "time_S (loopBody p s) = time_S s"
    using Suc.prems by (simp add: loopBody_time)
  then have "runLoop k p (loopBody p s) = None"
    using Suc.prems by (intro Suc.IH) simp
  then show ?case
    using Suc.prems by (simp add: runLoop.simps [of "Suc k"])
qed

end
